theory Spec2Isabelle
  imports
    Main
    "HOL-Library.Char_ord"
    "HOL-Library.List_Lexorder"
    "HOL-Library.Option_ord"
    "HOL-Library.Sublist"
begin

section \<open>Data model\<close>

text \<open>
  The two tables of \<^verbatim>\<open>app.py\<close>. A row is a record, a table the list of its rows in
  insertion order. The columns keep the source's names behind a prefix (\<open>u_\<close> for
  \<^verbatim>\<open>User\<close>, \<open>c_\<close> for \<^verbatim>\<open>Contact\<close>), since \<open>id\<close> is a constant of HOL and both classes
  have one. A nullable string column, a JSON field that is a string or \<^verbatim>\<open>null\<close>, and
  what Python's \<^verbatim>\<open>dict.get\<close> returns are all \<open>string option\<close>, with \<open>None\<close> for
  \<^verbatim>\<open>NULL\<close>, \<^verbatim>\<open>null\<close> and \<^verbatim>\<open>None\<close>. A string is the list of its bytes; the letters of
  a search term are ASCII.
\<close>

record user =
  u_id :: int
  u_username :: string
  u_password_hash :: string

record contact =
  c_id :: int
  c_name :: "string option"
  c_phone :: "string option"
  c_email :: "string option"
  c_user_id :: int

record db =
  users :: "user list"
  contacts :: "contact list"

text \<open>The dictionary built by \<^verbatim>\<open>Contact.to_dict\<close>: the row without its owner.\<close>

record contact_dict =
  d_id :: int
  d_name :: "string option"
  d_phone :: "string option"
  d_email :: "string option"

definition to_dict :: "contact \<Rightarrow> contact_dict" where
  "to_dict self = \<lparr>d_id = c_id self, d_name = c_name self,
                    d_phone = c_phone self, d_email = c_email self\<rparr>"

text \<open>
  The body of a request to the API is a JSON object whose fields are strings or
  \<^verbatim>\<open>null\<close>, in the order they were sent, or the JSON value \<^verbatim>\<open>null\<close>
  (\<^verbatim>\<open>request.json\<close> is then \<^verbatim>\<open>None\<close>).
\<close>

type_synonym json_object = "(string \<times> string option) list"

text \<open>\<^verbatim>\<open>data.get(key)\<close> and \<^verbatim>\<open>data.get(key, default)\<close>.\<close>

definition get_default :: "json_object \<Rightarrow> string \<Rightarrow> string option \<Rightarrow> string option" where
  "get_default data key fallback = (case map_of data key of None \<Rightarrow> fallback | Some v \<Rightarrow> v)"

definition get :: "json_object \<Rightarrow> string \<Rightarrow> string option" where
  "get data key = get_default data key None"

text \<open>Python's truth value of a string or \<^verbatim>\<open>None\<close>: only a non-empty string is true.\<close>

definition truthy :: "string option \<Rightarrow> bool" where
  "truthy v = (case v of None \<Rightarrow> False | Some s \<Rightarrow> s \<noteq> [])"

text \<open>
  The responses of the JSON routes: \<^verbatim>\<open>jsonify(...)\<close> with its status code
  (200 where the source gives none), and the page Flask answers with status 500 when a
  route raises.
\<close>

datatype body =
    ContactBody contact_dict
  | ContactList "contact_dict list"
  | ErrorBody string
  | MessageBody string
  | CountBody nat
  | InternalServerError

type_synonym response = "nat \<times> body"

text \<open>The responses of the form routes, and a flashed message with its category.\<close>

datatype page = Redirect string | Render string | Abort nat

type_synonym flash = "string \<times> string"

section \<open>The database engine\<close>

text \<open>
  The integer primary key of a new row, as SQLite assigns it: one more than the largest
  key of the table, 1 in an empty table.
\<close>

definition next_id :: "int list \<Rightarrow> int" where
  "next_id ids = (case ids of [] \<Rightarrow> 1 | i # rest \<Rightarrow> fold max rest i + 1)"

text \<open>
  SQLite's \<^verbatim>\<open>lower\<close> and the case folding of its \<^verbatim>\<open>LIKE\<close>, which change the
  letters A to Z only; on an ASCII string also Python's \<^verbatim>\<open>str.lower\<close>. (Python folds
  other letters too, so a search term with such letters is outside this model.)
\<close>

definition lower_char :: "char \<Rightarrow> char" where
  "lower_char c =
     (if CHR ''A'' \<le> c \<and> c \<le> CHR ''Z'' then char_of (of_char c + (32 :: nat)) else c)"

definition lower :: "string \<Rightarrow> string" where
  "lower s = map lower_char s"

text \<open>
  \<^verbatim>\<open>text LIKE pattern\<close>: in the pattern \<^verbatim>\<open>%\<close> stands for any run of characters,
  \<^verbatim>\<open>_\<close> for any one character, and every other character for itself, in either case.
  There is no escape character.
\<close>

fun like :: "string \<Rightarrow> string \<Rightarrow> bool" where
  "like [] t = (t = [])"
| "like (p # ps) [] = (p = CHR ''%'' \<and> like ps [])"
| "like (p # ps) (c # cs) =
     (if p = CHR ''%'' then like ps (c # cs) \<or> like (p # ps) cs
      else (p = CHR ''_'' \<or> lower_char p = lower_char c) \<and> like ps cs)"

text \<open>
  \<^verbatim>\<open>column.ilike(pattern)\<close>, which SQLAlchemy renders as
  \<^verbatim>\<open>lower(column) LIKE lower(pattern)\<close>. On a \<^verbatim>\<open>NULL\<close> column the comparison is
  \<^verbatim>\<open>NULL\<close>, which neither \<^verbatim>\<open>OR\<close> nor \<^verbatim>\<open>WHERE\<close> takes for true.
\<close>

definition ilike :: "string option \<Rightarrow> string \<Rightarrow> bool" where
  "ilike column pattern =
     (case column of None \<Rightarrow> False | Some t \<Rightarrow> like (lower pattern) (lower t))"

text \<open>\<^verbatim>\<open>query.filter_by(...).first()\<close> is \<^const>\<open>List.find\<close> on the table.\<close>

section \<open>Form routes\<close>

text \<open>
  \<^verbatim>\<open>request.form[key]\<close> answers 400 when the form has no such field.
\<close>

datatype request = GET | POST "(string \<times> string) list"

text \<open>
  \<^verbatim>\<open>generate_password_hash\<close> of \<^verbatim>\<open>werkzeug.security\<close> answers the tag of the method,
  the salt it drew for this call and the digest of the password under that salt, joined
  by dollar signs. The tag, the salt drawn and the key derivation of \<^verbatim>\<open>hashlib\<close> (its
  digest in hexadecimal) are parameters. \<open>check_password_hash\<close> is a parameter as a whole.
\<close>

definition generate_password_hash ::
  "string \<Rightarrow> string \<Rightarrow> (string \<Rightarrow> string \<Rightarrow> string) \<Rightarrow> string \<Rightarrow> string" where
  "generate_password_hash method salt hash_internal password =
     method @ ''$'' @ salt @ ''$'' @ hash_internal salt password"

definition check_password :: "(string \<Rightarrow> string \<Rightarrow> bool) \<Rightarrow> user \<Rightarrow> string \<Rightarrow> bool" where
  "check_password check_password_hash self password =
     check_password_hash (u_password_hash self) password"

definition set_password ::
  "string \<Rightarrow> string \<Rightarrow> (string \<Rightarrow> string \<Rightarrow> string) \<Rightarrow> user \<Rightarrow> string \<Rightarrow> user" where
  "set_password method salt hash_internal self password =
     self\<lparr>u_password_hash := generate_password_hash method salt hash_internal password\<rparr>"

text \<open>
  \<^verbatim>\<open>login\<close> takes the user of the session (\<open>None\<close> when anonymous), the request and its
  \<^verbatim>\<open>next\<close> argument; it returns the page, the messages flashed and the user of the
  session afterwards. It writes nothing to the database.
\<close>

definition login ::
  "(string \<Rightarrow> string \<Rightarrow> bool) \<Rightarrow> db \<Rightarrow> user option \<Rightarrow> request \<Rightarrow> string option
     \<Rightarrow> page \<times> flash list \<times> user option" where
  "login check_password_hash st current_user req next_page =
     (if current_user \<noteq> None then (Redirect ''/'', [], current_user)
      else case req of
        GET \<Rightarrow> (Render ''login.html'', [], current_user)
      | POST form \<Rightarrow>
          (case map_of form ''username'' of
             None \<Rightarrow> (Abort 400, [], current_user)
           | Some username \<Rightarrow>
          (case map_of form ''password'' of
             None \<Rightarrow> (Abort 400, [], current_user)
           | Some password \<Rightarrow>
          (case List.find (\<lambda>u. u_username u = username) (users st) of
             Some user \<Rightarrow>
               if check_password check_password_hash user password
               then (Redirect (case next_page of None \<Rightarrow> ''/'' | Some n \<Rightarrow> if n \<noteq> [] then n else ''/''),
                     [], Some user)
               else (Render ''login.html'',
                     [(''Invalid username or password. Please try again.'', ''danger'')],
                     current_user)
           | None \<Rightarrow>
               (Render ''login.html'',
                [(''Invalid username or password. Please try again.'', ''danger'')],
                current_user)))))"

text \<open>\<^verbatim>\<open>signup\<close> returns the page, the messages flashed and the database.\<close>

definition signup ::
  "string \<Rightarrow> string \<Rightarrow> (string \<Rightarrow> string \<Rightarrow> string) \<Rightarrow> db \<Rightarrow> user option \<Rightarrow> request
     \<Rightarrow> page \<times> flash list \<times> db" where
  "signup method salt hash_internal st current_user req =
     (if current_user \<noteq> None then (Redirect ''/'', [], st)
      else case req of
        GET \<Rightarrow> (Render ''signup.html'', [], st)
      | POST form \<Rightarrow>
          (case map_of form ''username'' of
             None \<Rightarrow> (Abort 400, [], st)
           | Some username \<Rightarrow>
          (case map_of form ''password'' of
             None \<Rightarrow> (Abort 400, [], st)
           | Some password \<Rightarrow>
             if username = [] \<or> password = []
             then (Redirect ''/signup'', [(''Username and password are required.'', ''warning'')], st)
             else (case List.find (\<lambda>u. u_username u = username) (users st) of
                Some existing_user \<Rightarrow>
                  (Redirect ''/signup'',
                   [(''Username already exists. Please choose a different one.'', ''warning'')],
                   st)
              | None \<Rightarrow>
                  (let new_user = set_password method salt hash_internal
                         \<lparr>u_id = next_id (map u_id (users st)), u_username = username,
                          u_password_hash = []\<rparr> password
                   in (Redirect ''/login'',
                       [(''Account created successfully! Please log in.'', ''success'')],
                       st\<lparr>users := users st @ [new_user]\<rparr>))))))"

section \<open>Contact routes\<close>

text \<open>
  Each route runs behind \<^verbatim>\<open>@login_required\<close>, so \<open>current_user\<close> is a user. A route
  returns its response and the database after its commit. \<open>get_contact\<close>,
  \<open>update_contact\<close> and \<open>delete_contact\<close> are the routes for an identifier that the
  database can bind, from the result of their query on; \<open>get_contact_route\<close>,
  \<open>update_contact_route\<close> and \<open>delete_contact_route\<close> below are the routes for every
  identifier.
\<close>

definition get_contacts :: "db \<Rightarrow> user \<Rightarrow> string option \<Rightarrow> response" where
  "get_contacts st current_user search =
     (let search_term = lower (case search of None \<Rightarrow> [] | Some s \<Rightarrow> s);
          query = filter (\<lambda>c. c_user_id c = u_id current_user) (contacts st);
          pattern = ''%'' @ search_term @ ''%'';
          query = (if search_term \<noteq> []
                   then filter (\<lambda>c. ilike (c_name c) pattern \<or> ilike (c_phone c) pattern
                                     \<or> ilike (c_email c) pattern) query
                   else query)
      in (200, ContactList (map to_dict (sort_key c_name query))))"

definition get_contact :: "db \<Rightarrow> user \<Rightarrow> int \<Rightarrow> response \<times> db" where
  "get_contact st current_user contact_id =
     (case List.find (\<lambda>c. c_id c = contact_id \<and> c_user_id c = u_id current_user) (contacts st) of
        Some contact \<Rightarrow> ((200, ContactBody (to_dict contact)), st)
      | None \<Rightarrow> ((404, ErrorBody ''Contact not found or access denied''), st))"

definition add__contact :: "db \<Rightarrow> user \<Rightarrow> json_object option \<Rightarrow> response \<times> db" where
  "add__contact st current_user json =
     (case json of
        None \<Rightarrow> ((400, ErrorBody ''Name is a required field.''), st)
      | Some data \<Rightarrow>
          if data = [] \<or> \<not> truthy (get data ''name'')
          then ((400, ErrorBody ''Name is a required field.''), st)
          else
            (let new_contact = \<lparr>c_id = next_id (map c_id (contacts st)),
                               c_name = get data ''name'',
                               c_phone = get data ''phone'',
                               c_email = get data ''email'',
                               c_user_id = u_id current_user\<rparr>
             in ((201, ContactBody (to_dict new_contact)),
                 st\<lparr>contacts := contacts st @ [new_contact]\<rparr>)))"

text \<open>
  The commit of \<^verbatim>\<open>update_contact\<close> writes the changed object back, and that of
  \<^verbatim>\<open>delete_contact\<close> deletes it, by its primary key.
\<close>

definition update_contact :: "db \<Rightarrow> user \<Rightarrow> int \<Rightarrow> json_object option \<Rightarrow> response \<times> db" where
  "update_contact st current_user contact_id json =
     (case List.find (\<lambda>c. c_id c = contact_id \<and> c_user_id c = u_id current_user) (contacts st) of
        None \<Rightarrow> ((404, ErrorBody ''Contact not found or access denied''), st)
      | Some contact \<Rightarrow>
          (case json of
             None \<Rightarrow> ((400, ErrorBody ''Name is a required field.''), st)
           | Some data \<Rightarrow>
               if data = [] \<or> \<not> truthy (get data ''name'')
               then ((400, ErrorBody ''Name is a required field.''), st)
               else
                 (let contact' = contact\<lparr>c_name := get_default data ''name'' (c_name contact),
                                         c_phone := get_default data ''phone'' (c_phone contact),
                                         c_email := get_default data ''email'' (c_email contact)\<rparr>
                  in ((200, ContactBody (to_dict contact')),
                      st\<lparr>contacts := map (\<lambda>r. if c_id r = c_id contact then contact' else r)
                                          (contacts st)\<rparr>))))"

definition delete_contact :: "db \<Rightarrow> user \<Rightarrow> int \<Rightarrow> response \<times> db" where
  "delete_contact st current_user contact_id =
     (case List.find (\<lambda>c. c_id c = contact_id \<and> c_user_id c = u_id current_user) (contacts st) of
        None \<Rightarrow> ((404, ErrorBody ''Contact not found or access denied''), st)
      | Some contact \<Rightarrow>
          ((200, MessageBody ''Contact deleted successfully''),
           st\<lparr>contacts := filter (\<lambda>r. c_id r \<noteq> c_id contact) (contacts st)\<rparr>))"

definition get_contacts_count :: "db \<Rightarrow> user \<Rightarrow> response" where
  "get_contacts_count st current_user =
     (200, CountBody (length (filter (\<lambda>c. c_user_id c = u_id current_user) (contacts st))))"

text \<open>
  The converter of \<^verbatim>\<open><int:contact_id>\<close> accepts every natural number, and the query
  binds it as an SQLite integer. For a number above \<open>2^63 - 1\<close> the driver raises
  \<^verbatim>\<open>OverflowError\<close>; nothing catches it, so Flask answers 500, and nothing is written.
\<close>

definition max_integer :: int where
  "max_integer = 9223372036854775807"

definition get_contact_route :: "db \<Rightarrow> user \<Rightarrow> int \<Rightarrow> response \<times> db" where
  "get_contact_route st current_user contact_id =
     (if contact_id > max_integer then ((500, InternalServerError), st)
      else get_contact st current_user contact_id)"

definition update_contact_route ::
  "db \<Rightarrow> user \<Rightarrow> int \<Rightarrow> json_object option \<Rightarrow> response \<times> db" where
  "update_contact_route st current_user contact_id json =
     (if contact_id > max_integer then ((500, InternalServerError), st)
      else update_contact st current_user contact_id json)"

definition delete_contact_route :: "db \<Rightarrow> user \<Rightarrow> int \<Rightarrow> response \<times> db" where
  "delete_contact_route st current_user contact_id =
     (if contact_id > max_integer then ((500, InternalServerError), st)
      else delete_contact st current_user contact_id)"

section \<open>Notions of the specification\<close>

text \<open>
  The primary key of the contact table: no two rows share an identifier. The engine
  keeps it; \<open>primary_key_step\<close> below shows that every route does.
\<close>

definition primary_key :: "db \<Rightarrow> bool" where
  "primary_key st = distinct (map c_id (contacts st))"

text \<open>A contact with this identifier, owned by this user, exists.\<close>

definition owns :: "db \<Rightarrow> user \<Rightarrow> int \<Rightarrow> bool" where
  "owns st owner contact_id =
     (\<exists>c \<in> set (contacts st). c_id c = contact_id \<and> c_user_id c = u_id owner)"

text \<open>
  The name field of a payload is empty or absent: there is no payload, or it has no
  \<^verbatim>\<open>name\<close>, or its \<^verbatim>\<open>name\<close> is \<^verbatim>\<open>null\<close> or the empty string.
\<close>

definition name_empty_or_absent :: "json_object option \<Rightarrow> bool" where
  "name_empty_or_absent json =
     (case json of
        None \<Rightarrow> True
      | Some data \<Rightarrow>
          (case map_of data ''name'' of
             None \<Rightarrow> True
           | Some None \<Rightarrow> True
           | Some (Some s) \<Rightarrow> s = []))"

text \<open>
  The two characters that \<^verbatim>\<open>LIKE\<close> does not take literally.
\<close>

definition wildcard :: "char \<Rightarrow> bool" where
  "wildcard c = (c = CHR ''%'' \<or> c = CHR ''_'')"

text \<open>
  A column contains the string \<open>s\<close> as a substring, whatever the case of the letters;
  a contact matches \<open>s\<close> if its name, phone or email does.
\<close>

definition contains :: "string option \<Rightarrow> string \<Rightarrow> bool" where
  "contains column s = (case column of None \<Rightarrow> False | Some t \<Rightarrow> sublist (lower s) (lower t))"

definition matches :: "contact_dict \<Rightarrow> string \<Rightarrow> bool" where
  "matches d s = (contains (d_name d) s \<or> contains (d_phone d) s \<or> contains (d_email d) s)"

text \<open>The two failures of \<^verbatim>\<open>signup\<close>, as the page and the message they produce.\<close>

definition ValidationError :: "page \<times> flash list" where
  "ValidationError =
     (Redirect ''/signup'', [(''Username and password are required.'', ''warning'')])"

definition ConflictError :: "page \<times> flash list" where
  "ConflictError =
     (Redirect ''/signup'',
      [(''Username already exists. Please choose a different one.'', ''warning'')])"

text \<open>
  A request to one of the routes that write, and the database after it. Every
  database the application reaches is \<open>fold step requests empty_db\<close>.
\<close>

datatype write_request =
    Signup string string "string \<Rightarrow> string \<Rightarrow> string" "user option" request
  | Add user "json_object option"
  | Update user int "json_object option"
  | Delete user int

fun step :: "write_request \<Rightarrow> db \<Rightarrow> db" where
  "step (Signup method salt hash_internal current_user req) st =
     snd (snd (signup method salt hash_internal st current_user req))"
| "step (Add current_user json) st = snd (add__contact st current_user json)"
| "step (Update current_user contact_id json) st =
     snd (update_contact_route st current_user contact_id json)"
| "step (Delete current_user contact_id) st =
     snd (delete_contact_route st current_user contact_id)"

definition empty_db :: db where
  "empty_db = \<lparr>users = [], contacts = []\<rparr>"

section \<open>Example data\<close>

definition alice :: user where
  "alice = \<lparr>u_id = 1, u_username = ''alice'', u_password_hash = ''hash:pw123''\<rparr>"

definition carol :: user where
  "carol = \<lparr>u_id = 2, u_username = ''carol'', u_password_hash = ''hash:secret''\<rparr>"

definition bob_payload :: json_object where
  "bob_payload = [(''name'', Some ''Bob''), (''phone'', Some ''555-1111'')]"

definition bob :: contact where
  "bob = \<lparr>c_id = 1, c_name = Some ''Bob'', c_phone = Some ''555-1111'', c_email = None,
          c_user_id = 1\<rparr>"

definition bob_db :: db where
  "bob_db = \<lparr>users = [alice, carol], contacts = [bob]\<rparr>"

definition demo_hash :: "string \<Rightarrow> string" where
  "demo_hash password = ''hash:'' @ password"

definition demo_check :: "string \<Rightarrow> string \<Rightarrow> bool" where
  "demo_check pwhash password = (pwhash = demo_hash password)"

definition demo_digest :: "string \<Rightarrow> string \<Rightarrow> string" where
  "demo_digest salt password = rev (salt @ password)"

section \<open>Auxiliary facts\<close>

lemma fold_max_ge: "(a::int) \<le> fold max xs a \<and> (\<forall>x\<in>set xs. x \<le> fold max xs a)"
proof (induction xs arbitrary: a)
  case Nil
  show ?case by simp
next
  case (Cons x xs)
  have "max x a \<le> fold max xs (max x a)" "\<forall>y\<in>set xs. y \<le> fold max xs (max x a)"
    using Cons.IH [of "max x a"] by simp_all
  then show ?case by auto
qed

lemma next_id_greater: "i \<in> set ids \<Longrightarrow> i < next_id ids"
  using fold_max_ge by (cases ids) (fastforce simp: next_id_def)+

lemma next_id_fresh: "next_id ids \<notin> set ids"
  using next_id_greater by blast

lemma find_foreign_None:
  assumes "distinct (map c_id cs)" and "c \<in> set cs" and "c_user_id c \<noteq> uid"
  shows "List.find (\<lambda>r. c_id r = c_id c \<and> c_user_id r = uid) cs = None"
proof -
  have "r = c" if "r \<in> set cs" "c_id r = c_id c" for r
    using assms(1,2) that by (meson distinct_map inj_onD)
  with assms(3) show ?thesis
    by (auto simp: find_None_iff)
qed

lemma find_updated:
  assumes "c \<in> set cs" and "c_id c' = c_id c" and "c_user_id c' = uid"
  shows "List.find (\<lambda>r. c_id r = c_id c \<and> c_user_id r = uid)
           (map (\<lambda>r. if c_id r = c_id c then c' else r) cs) = Some c'"
  using assms by (induction cs) auto

lemma find_owner_iff:
  "(List.find (\<lambda>c. c_id c = i \<and> c_user_id c = u_id owner) (contacts st) = None) = (\<not> owns st owner i)"
  by (auto simp: find_None_iff owns_def)

lemma find_snoc_fresh:
  assumes "\<forall>r\<in>set cs. \<not> P r" and "P c"
  shows "List.find P (cs @ [c]) = Some c"
  using assms by (induction cs) auto

lemma truthy_name_iff:
  "(data = [] \<or> \<not> truthy (get data ''name'')) = name_empty_or_absent (Some data)"
  by (cases data) (auto simp: truthy_def get_def get_default_def name_empty_or_absent_def split: option.splits)

lemma add__contact_invalid:
  "name_empty_or_absent json \<Longrightarrow>
     add__contact st owner json = ((400, ErrorBody ''Name is a required field.''), st)"
  using truthy_name_iff by (cases json) (simp_all add: add__contact_def)

lemma add__contact_valid:
  assumes "\<not> name_empty_or_absent (Some data)"
  shows "add__contact st owner (Some data) =
           ((201, ContactBody (to_dict
               \<lparr>c_id = next_id (map c_id (contacts st)), c_name = get data ''name'',
                c_phone = get data ''phone'', c_email = get data ''email'',
                c_user_id = u_id owner\<rparr>)),
            st\<lparr>contacts := contacts st @
               [\<lparr>c_id = next_id (map c_id (contacts st)), c_name = get data ''name'',
                 c_phone = get data ''phone'', c_email = get data ''email'',
                 c_user_id = u_id owner\<rparr>]\<rparr>)"
  using assms truthy_name_iff [of data] by (simp add: add__contact_def Let_def)

lemma update_contact_not_found:
  "\<not> owns st owner i \<Longrightarrow>
     update_contact st owner i json = ((404, ErrorBody ''Contact not found or access denied''), st)"
  using find_owner_iff [of i owner st] by (simp add: update_contact_def)

lemma update_contact_invalid:
  assumes "owns st owner i" and "name_empty_or_absent json"
  shows "update_contact st owner i json = ((400, ErrorBody ''Name is a required field.''), st)"
proof -
  obtain c where "List.find (\<lambda>c. c_id c = i \<and> c_user_id c = u_id owner) (contacts st) = Some c"
    using assms(1) find_owner_iff [of i owner st] by auto
  then show ?thesis
    using assms(2) truthy_name_iff by (cases json) (simp_all add: update_contact_def)
qed

lemma update_contact_valid:
  assumes "List.find (\<lambda>c. c_id c = i \<and> c_user_id c = u_id owner) (contacts st) = Some c"
    and "\<not> name_empty_or_absent (Some data)"
  shows "update_contact st owner i (Some data) =
           ((200, ContactBody (to_dict
               (c\<lparr>c_name := get_default data ''name'' (c_name c),
                  c_phone := get_default data ''phone'' (c_phone c),
                  c_email := get_default data ''email'' (c_email c)\<rparr>))),
            st\<lparr>contacts := map (\<lambda>r. if c_id r = c_id c
                 then c\<lparr>c_name := get_default data ''name'' (c_name c),
                        c_phone := get_default data ''phone'' (c_phone c),
                        c_email := get_default data ''email'' (c_email c)\<rparr>
                 else r) (contacts st)\<rparr>)"
  using assms truthy_name_iff [of data] by (simp add: update_contact_def Let_def)

lemma find_SomeD:
  "List.find (\<lambda>c. c_id c = i \<and> c_user_id c = uid) cs = Some c \<Longrightarrow>
     c \<in> set cs \<and> c_id c = i \<and> c_user_id c = uid"
  by (auto simp: find_Some_iff)

lemma get_contact_db: "snd (get_contact st owner i) = st"
  by (simp add: get_contact_def split: option.split)

lemma update_contact_error:
  "fst (fst (update_contact st owner i json)) \<noteq> 200 \<Longrightarrow>
     snd (update_contact st owner i json) = st"
  by (auto simp: update_contact_def Let_def split: option.splits if_splits)

lemma delete_contact_error:
  "fst (fst (delete_contact st owner i)) \<noteq> 200 \<Longrightarrow> snd (delete_contact st owner i) = st"
  by (simp add: delete_contact_def split: option.splits)

lemma add__contact_error:
  "fst (fst (add__contact st owner json)) \<noteq> 201 \<Longrightarrow> snd (add__contact st owner json) = st"
  by (auto simp: add__contact_def Let_def split: option.splits if_splits)

lemma map_c_id_update:
  "c_id c' = c_id c \<Longrightarrow> map c_id (map (\<lambda>r. if c_id r = c_id c then c' else r) cs) = map c_id cs"
  by (induction cs) auto

lemma map_c_user_id_update:
  assumes "distinct (map c_id cs)" and "c \<in> set cs" and "c_user_id c' = c_user_id c"
  shows "map c_user_id (map (\<lambda>r. if c_id r = c_id c then c' else r) cs) = map c_user_id cs"
proof -
  have "r = c" if "r \<in> set cs" "c_id r = c_id c" for r
    using assms(1,2) that by (meson distinct_map inj_onD)
  then have "\<forall>r\<in>set cs. c_user_id (if c_id r = c_id c then c' else r) = c_user_id r"
    using assms(3) by auto
  then show ?thesis by (simp add: comp_def cong: map_cong)
qed

lemma update_contact_ids:
  "map c_id (contacts (snd (update_contact st owner i json))) = map c_id (contacts st)"
  by (auto simp: update_contact_def Let_def map_c_id_update split: option.splits)

lemma update_contact_owners:
  assumes "primary_key st"
  shows "map c_user_id (contacts (snd (update_contact st owner i json))) =
           map c_user_id (contacts st)"
proof (cases "List.find (\<lambda>c. c_id c = i \<and> c_user_id c = u_id owner) (contacts st)")
  case None
  then show ?thesis by (simp add: update_contact_def)
next
  case (Some c)
  have c: "c \<in> set (contacts st)"
    using find_SomeD [OF Some] by simp
  show ?thesis
  proof (cases "name_empty_or_absent json")
    case True
    have "owns st owner i"
      using Some find_owner_iff [of i owner st] by simp
    then show ?thesis
      using True by (simp add: update_contact_invalid)
  next
    case False
    then obtain data where json: "json = Some data"
      by (cases json) (simp_all add: name_empty_or_absent_def)
    have "\<not> name_empty_or_absent (Some data)"
      using False json by simp
    then have "update_contact st owner i json =
           ((200, ContactBody (to_dict
               (c\<lparr>c_name := get_default data ''name'' (c_name c),
                  c_phone := get_default data ''phone'' (c_phone c),
                  c_email := get_default data ''email'' (c_email c)\<rparr>))),
            st\<lparr>contacts := map (\<lambda>r. if c_id r = c_id c
                 then c\<lparr>c_name := get_default data ''name'' (c_name c),
                        c_phone := get_default data ''phone'' (c_phone c),
                        c_email := get_default data ''email'' (c_email c)\<rparr>
                 else r) (contacts st)\<rparr>)"
      unfolding json using Some by (rule update_contact_valid [rotated])
    moreover have "map c_user_id (map (\<lambda>r. if c_id r = c_id c
                 then c\<lparr>c_name := get_default data ''name'' (c_name c),
                        c_phone := get_default data ''phone'' (c_phone c),
                        c_email := get_default data ''email'' (c_email c)\<rparr>
                 else r) (contacts st)) = map c_user_id (contacts st)"
      using assms c by (intro map_c_user_id_update) (simp_all add: primary_key_def)
    ultimately show ?thesis
      by (simp del: map_map)
  qed
qed

subsection \<open>The primary key is kept\<close>

lemma signup_contacts:
  "contacts (snd (snd (signup method salt hash_internal st current_user req))) = contacts st"
  by (simp add: signup_def Let_def split: request.split option.split)

lemma primary_key_step: "primary_key st \<Longrightarrow> primary_key (step req st)"
proof (cases req)
  case (Signup m s h u r)
  assume "primary_key st"
  then show ?thesis by (simp add: Signup primary_key_def signup_contacts)
next
  case (Add u json)
  assume pk: "primary_key st"
  show ?thesis
  proof (cases "name_empty_or_absent json")
    case True
    then show ?thesis using pk by (simp add: Add add__contact_invalid)
  next
    case False
    then obtain data where "json = Some data"
      by (cases json) (simp_all add: name_empty_or_absent_def)
    then show ?thesis
      using pk False next_id_fresh [of "map c_id (contacts st)"]
      by (simp add: Add add__contact_valid primary_key_def)
  qed
next
  case (Update u i json)
  assume "primary_key st"
  then show ?thesis
    by (simp add: Update primary_key_def update_contact_route_def update_contact_ids)
next
  case (Delete u i)
  assume "primary_key st"
  then show ?thesis
    by (simp add: Delete primary_key_def delete_contact_route_def delete_contact_def
        distinct_map_filter split: option.split)
qed

lemma primary_key_fold: "primary_key st \<Longrightarrow> primary_key (fold step requests st)"
  by (induction requests arbitrary: st) (simp_all add: primary_key_step)

lemma primary_key_reachable: "primary_key (fold step requests empty_db)"
  by (rule primary_key_fold) (simp add: primary_key_def empty_db_def)


subsection \<open>What signing up stores\<close>

text \<open>
  The outcome of signing up depends on the password only through its digest: two
  non-empty passwords with the same digest under the salt give the same page, messages
  and database.
\<close>

lemma signup_through_digest:
  assumes "map_of form ''username'' = Some username"
    and "map_of form ''password'' = Some password"
    and "map_of form' ''username'' = Some username"
    and "map_of form' ''password'' = Some password'"
    and "password \<noteq> []" and "password' \<noteq> []"
    and "hash_internal salt password = hash_internal salt password'"
  shows "signup method salt hash_internal st current_user (POST form) =
           signup method salt hash_internal st current_user (POST form')"
  using assms
  by (simp add: signup_def set_password_def generate_password_hash_def Let_def
      split: option.split)

subsection \<open>Matching a pattern\<close>

lemma lower_char_upper:
  assumes "CHR ''A'' \<le> c" and "c \<le> CHR ''Z''"
  shows "of_char (lower_char c) = (of_char c :: nat) + 32"
    and "(65 :: nat) \<le> of_char c" and "of_char c \<le> (90 :: nat)"
proof -
  show b: "(65 :: nat) \<le> of_char c" "of_char c \<le> (90 :: nat)"
    using assms by (simp_all add: less_eq_char_def)
  then show "of_char (lower_char c) = (of_char c :: nat) + 32"
    using assms by (simp add: lower_char_def)
qed

lemma lower_char_idem: "lower_char (lower_char c) = lower_char c"
proof (cases "CHR ''A'' \<le> c \<and> c \<le> CHR ''Z''")
  case True
  then have "(of_char (lower_char c) :: nat) > 90"
    using lower_char_upper [of c] by simp
  then have "\<not> lower_char c \<le> CHR ''Z''"
    by (simp add: less_eq_char_def)
  then show ?thesis
    by (simp add: lower_char_def [of "lower_char c"])
next
  case False
  then have "lower_char c = c" by (auto simp: lower_char_def)
  then show ?thesis by simp
qed

lemma lower_char_wildcard: "wildcard (lower_char c) = wildcard c"
proof (cases "CHR ''A'' \<le> c \<and> c \<le> CHR ''Z''")
  case True
  then have "(of_char (lower_char c) :: nat) > 96" "(65 :: nat) \<le> of_char c"
    using lower_char_upper [of c] by simp_all
  then have "lower_char c \<noteq> CHR ''%''" "lower_char c \<noteq> CHR ''_''" "c \<noteq> CHR ''%''" "c \<noteq> CHR ''_''"
    using True by (auto simp: less_eq_char_def)
  then show ?thesis by (simp add: wildcard_def)
next
  case False
  then have "lower_char c = c" by (auto simp: lower_char_def)
  then show ?thesis by simp
qed

lemma like_percent: "like (CHR ''%'' # ps) t = (\<exists>t1 t2. t = t1 @ t2 \<and> like ps t2)"
proof (induction t)
  case Nil
  show ?case by simp
next
  case (Cons c cs)
  show ?case
  proof
    assume "like (CHR ''%'' # ps) (c # cs)"
    then consider "like ps (c # cs)" | "like (CHR ''%'' # ps) cs" by auto
    then show "\<exists>t1 t2. c # cs = t1 @ t2 \<and> like ps t2"
    proof cases
      case 1
      then show ?thesis by (intro exI [of _ "[]"] exI [of _ "c # cs"]) simp
    next
      case 2
      then obtain t1 t2 where "cs = t1 @ t2" "like ps t2" using Cons.IH by auto
      then show ?thesis by (intro exI [of _ "c # t1"] exI [of _ t2]) simp
    qed
  next
    assume "\<exists>t1 t2. c # cs = t1 @ t2 \<and> like ps t2"
    then obtain t1 t2 where t: "c # cs = t1 @ t2" "like ps t2" by auto
    show "like (CHR ''%'' # ps) (c # cs)"
    proof (cases t1)
      case Nil
      then have "like ps (c # cs)" using t by simp
      then show ?thesis by simp
    next
      case (Cons a t1')
      then have "cs = t1' @ t2" using t by simp
      then have "like (CHR ''%'' # ps) cs" using t(2) Cons.IH by auto
      then show ?thesis by simp
    qed
  qed
qed

lemma like_literal:
  assumes "\<forall>c\<in>set q. \<not> wildcard c"
  shows "like (q @ r) t =
           (\<exists>t1 t2. t = t1 @ t2 \<and> map lower_char t1 = map lower_char q \<and> like r t2)"
  using assms
proof (induction q arbitrary: t)
  case Nil
  show ?case by simp
next
  case (Cons p q)
  then have p: "p \<noteq> CHR ''%''" "p \<noteq> CHR ''_''" and q: "\<forall>c\<in>set q. \<not> wildcard c"
    by (simp_all add: wildcard_def)
  show ?case
  proof (cases t)
    case Nil
    then show ?thesis using p by simp
  next
    case (Cons c cs)
    have "like ((p # q) @ r) (c # cs) = (lower_char p = lower_char c \<and> like (q @ r) cs)"
      using p by simp
    also have "\<dots> = (lower_char p = lower_char c \<and>
        (\<exists>t1 t2. cs = t1 @ t2 \<and> map lower_char t1 = map lower_char q \<and> like r t2))"
      using Cons.IH [OF q] by simp
    also have "\<dots> = (\<exists>t1 t2. c # cs = t1 @ t2 \<and> map lower_char t1 = map lower_char (p # q)
        \<and> like r t2)"
    proof
      assume "lower_char p = lower_char c \<and>
        (\<exists>t1 t2. cs = t1 @ t2 \<and> map lower_char t1 = map lower_char q \<and> like r t2)"
      then obtain t1 t2 where "lower_char p = lower_char c" "cs = t1 @ t2"
        "map lower_char t1 = map lower_char q" "like r t2" by blast
      then show "\<exists>t1 t2. c # cs = t1 @ t2 \<and> map lower_char t1 = map lower_char (p # q)
        \<and> like r t2"
        by (intro exI [of _ "c # t1"] exI [of _ t2]) simp
    next
      assume "\<exists>t1 t2. c # cs = t1 @ t2 \<and> map lower_char t1 = map lower_char (p # q)
        \<and> like r t2"
      then obtain t1 t2 where t: "c # cs = t1 @ t2" "map lower_char t1 = map lower_char (p # q)"
        "like r t2" by blast
      then obtain t1' where "t1 = c # t1'" by (cases t1) auto
      then show "lower_char p = lower_char c \<and>
        (\<exists>t1 t2. cs = t1 @ t2 \<and> map lower_char t1 = map lower_char q \<and> like r t2)"
        using t by auto
    qed
    finally show ?thesis using Cons by simp
  qed
qed

lemma like_contains:
  assumes "\<forall>c\<in>set s. \<not> wildcard c"
  shows "like (lower (''%'' @ lower s @ ''%'')) (lower t) = sublist (lower s) (lower t)"
proof -
  let ?q = "lower (lower s)"
  have ll: "lower (lower x) = lower x" for x
    by (simp add: lower_def lower_char_idem)
  have q: "\<forall>c\<in>set ?q. \<not> wildcard c"
    using assms by (simp add: lower_def lower_char_wildcard)
  have pct: "lower_char CHR ''%'' = CHR ''%''"
    by (simp add: lower_char_def less_eq_char_def)
  have all: "like ''%'' u" for u
    using like_percent [of "[]" u] by simp
  have "like (lower (''%'' @ lower s @ ''%'')) (lower t) = like (CHR ''%'' # (?q @ ''%'')) (lower t)"
    by (simp add: lower_def pct)
  also have "\<dots> = (\<exists>t1 t2. lower t = t1 @ t2 \<and> like (?q @ ''%'') t2)"
    by (rule like_percent)
  also have "\<dots> = (\<exists>t1 t2. lower t = t1 @ t2 \<and>
      (\<exists>u1 u2. t2 = u1 @ u2 \<and> map lower_char u1 = map lower_char ?q))"
    using like_literal [OF q, of "''%''"] all by simp
  also have "\<dots> = sublist (lower s) (lower t)"
  proof
    assume "\<exists>t1 t2. lower t = t1 @ t2 \<and>
      (\<exists>u1 u2. t2 = u1 @ u2 \<and> map lower_char u1 = map lower_char ?q)"
    then obtain t1 u1 u2 where t: "lower t = t1 @ u1 @ u2" "lower u1 = lower ?q"
      by (auto simp: lower_def)
    have "lower (lower t) = lower t1 @ lower u1 @ lower u2"
      using t(1) by (simp add: lower_def)
    then have "lower t = lower t1 @ lower s @ lower u2"
      using t(2) by (simp add: ll)
    then show "sublist (lower s) (lower t)"
      by (auto simp: sublist_def)
  next
    assume "sublist (lower s) (lower t)"
    then obtain a b where "lower t = a @ lower s @ b"
      by (auto simp: sublist_def)
    then show "\<exists>t1 t2. lower t = t1 @ t2 \<and>
      (\<exists>u1 u2. t2 = u1 @ u2 \<and> map lower_char u1 = map lower_char ?q)"
      using ll [of "lower s"] ll [of s]
      by (intro exI [of _ a] exI [of _ "lower s @ b"] conjI exI [of _ "lower s"] exI [of _ b])
         (simp_all add: lower_def)
  qed
  finally show ?thesis .
qed


subsection \<open>Listing\<close>

lemma ilike_contains:
  "\<forall>c\<in>set s. \<not> wildcard c \<Longrightarrow> ilike column (''%'' @ lower s @ ''%'') = contains column s"
  using like_contains [of s] by (cases column) (simp_all add: ilike_def contains_def)

lemma get_contacts_sorted:
  "get_contacts st owner search = (200, ContactList l) \<Longrightarrow> sorted (map d_name l)"
  by (auto simp: get_contacts_def Let_def to_dict_def comp_def split: if_splits)

lemma get_contacts_no_search:
  "get_contacts st owner None =
     (200, ContactList (map to_dict
        (sort_key c_name (filter (\<lambda>c. c_user_id c = u_id owner) (contacts st)))))"
  by (simp add: get_contacts_def lower_def)

lemma get_contacts_literal_search:
  assumes "\<forall>c\<in>set s. \<not> wildcard c" and "s \<noteq> []"
    and "\<forall>c\<in>set s. of_char c < (128 :: nat)"
  shows "\<exists>l. get_contacts st owner None = (200, ContactList l)
           \<and> get_contacts st owner (Some s) = (200, ContactList (filter (\<lambda>d. matches d s) l))"
proof -
  let ?own = "filter (\<lambda>c. c_user_id c = u_id owner) (contacts st)"
  have ne: "lower s \<noteq> []"
    using assms(2) by (simp add: lower_def)
  have m: "(ilike (c_name c) (CHR ''%'' # lower s @ ''%'')
            \<or> ilike (c_phone c) (CHR ''%'' # lower s @ ''%'')
            \<or> ilike (c_email c) (CHR ''%'' # lower s @ ''%'')) = matches (to_dict c) s" for c
    using ilike_contains [OF assms(1)] by (simp add: matches_def to_dict_def)
  have "get_contacts st owner (Some s) =
          (200, ContactList (map to_dict (sort_key c_name
             (filter (\<lambda>c. matches (to_dict c) s) ?own))))"
    using ne unfolding get_contacts_def Let_def by (simp add: m)
  also have "map to_dict (sort_key c_name (filter (\<lambda>c. matches (to_dict c) s) ?own)) =
          filter (\<lambda>d. matches d s) (map to_dict (sort_key c_name ?own))"
    by (simp add: filter_map comp_def filter_sort)
  finally show ?thesis
    using get_contacts_no_search [of st owner] by simp
qed

section \<open>Ownership\<close>

text \<open>
  Claim C1. Let contact \<open>c\<close> be stored and owned by user \<open>a\<close>, and let \<open>b\<close> be another
  user. Then reading \<open>c\<close> as \<open>b\<close> answers 404, and so do updating it (with any payload)
  and deleting it as \<open>b\<close>; each leaves the database, and so \<open>c\<close>, as it was.
\<close>

theorem ownership_isolation:
  assumes "primary_key st" and "c \<in> set (contacts st)"
    and "c_user_id c = u_id a" and "u_id a \<noteq> u_id b"
  shows "get_contact st b (c_id c) =
           ((404, ErrorBody ''Contact not found or access denied''), st)
       \<and> update_contact st b (c_id c) json =
           ((404, ErrorBody ''Contact not found or access denied''), st)
       \<and> delete_contact st b (c_id c) =
           ((404, ErrorBody ''Contact not found or access denied''), st)"
proof -
  have "List.find (\<lambda>r. c_id r = c_id c \<and> c_user_id r = u_id b) (contacts st) = None"
    using assms by (intro find_foreign_None) (simp_all add: primary_key_def)
  then show ?thesis
    by (simp add: get_contact_def update_contact_def delete_contact_def)
qed

theorem ownership_isolation_witness:
  "primary_key bob_db \<and> bob \<in> set (contacts bob_db)
   \<and> c_user_id bob = u_id alice \<and> u_id alice \<noteq> u_id carol
   \<and> get_contact bob_db carol 1 =
       ((404, ErrorBody ''Contact not found or access denied''), bob_db)
   \<and> update_contact bob_db carol 1 (Some bob_payload) =
       ((404, ErrorBody ''Contact not found or access denied''), bob_db)
   \<and> delete_contact bob_db carol 1 =
       ((404, ErrorBody ''Contact not found or access denied''), bob_db)"
  using ownership_isolation [of bob_db bob alice carol "Some bob_payload"]
  by (simp add: primary_key_def bob_db_def bob_def alice_def carol_def)

section \<open>Counting\<close>

text \<open>
  Claim C3. In every database, for every owner, the number answered by the count route
  is the length of the list answered by the list route without a search term (none
  given, or the empty one).
\<close>

theorem count_equals_list_length:
  "\<exists>l. get_contacts st owner None = (200, ContactList l)
      \<and> get_contacts st owner (Some []) = (200, ContactList l)
      \<and> get_contacts_count st owner = (200, CountBody (length l))"
  by (simp add: get_contacts_def get_contacts_count_def lower_def)

theorem count_equals_list_length_witness:
  "get_contacts bob_db alice None = (200, ContactList [to_dict bob])
   \<and> get_contacts_count bob_db alice = (200, CountBody 1)"
  using count_equals_list_length [of bob_db alice]
  by (simp add: get_contacts_def get_contacts_count_def lower_def bob_db_def bob_def alice_def)

section \<open>Creating a contact\<close>

text \<open>
  Claim C5. Creating a contact answers 400 exactly when the name field of the payload
  is empty or absent, and then the database is unchanged. Otherwise it answers 201
  with the new contact: the body has the identifier of the new row and the name, phone
  and email of the payload; the row has the same fields, the caller as owner and an
  identifier no stored contact has; and the database is the old one with this row
  appended.
\<close>

theorem create_validation:
  "((fst (fst (add__contact st owner json)) = 400) = name_empty_or_absent json)
   \<and> (name_empty_or_absent json \<longrightarrow>
        add__contact st owner json = ((400, ErrorBody ''Name is a required field.''), st))
   \<and> (\<forall>data. json = Some data \<and> \<not> name_empty_or_absent json \<longrightarrow>
        (\<exists>c. add__contact st owner json =
                ((201, ContactBody \<lparr>d_id = c_id c, d_name = get data ''name'',
                                    d_phone = get data ''phone'',
                                    d_email = get data ''email''\<rparr>),
                 st\<lparr>contacts := contacts st @ [c]\<rparr>)
            \<and> c_name c = get data ''name''
            \<and> c_phone c = get data ''phone''
            \<and> c_email c = get data ''email''
            \<and> c_user_id c = u_id owner
            \<and> c_id c \<notin> c_id ` set (contacts st)))"
proof (intro conjI allI impI)
  show "(fst (fst (add__contact st owner json)) = 400) = name_empty_or_absent json"
  proof (cases "name_empty_or_absent json")
    case True
    then show ?thesis by (simp add: add__contact_invalid)
  next
    case False
    then obtain data where "json = Some data"
      by (cases json) (simp_all add: name_empty_or_absent_def)
    with False show ?thesis by (simp add: add__contact_valid)
  qed
next
  assume "name_empty_or_absent json"
  then show "add__contact st owner json = ((400, ErrorBody ''Name is a required field.''), st)"
    by (rule add__contact_invalid)
next
  fix data
  assume a: "json = Some data \<and> \<not> name_empty_or_absent json"
  let ?c = "\<lparr>c_id = next_id (map c_id (contacts st)), c_name = get data ''name'',
             c_phone = get data ''phone'', c_email = get data ''email'',
             c_user_id = u_id owner\<rparr>"
  have "add__contact st owner json =
          ((201, ContactBody \<lparr>d_id = c_id ?c, d_name = get data ''name'',
                              d_phone = get data ''phone'', d_email = get data ''email''\<rparr>),
           st\<lparr>contacts := contacts st @ [?c]\<rparr>)"
    using a add__contact_valid [of data st owner] by (auto simp: to_dict_def)
  moreover have "c_id ?c \<notin> c_id ` set (contacts st)"
    using next_id_fresh [of "map c_id (contacts st)"] by simp
  ultimately show "\<exists>c. add__contact st owner json =
                ((201, ContactBody \<lparr>d_id = c_id c, d_name = get data ''name'',
                                    d_phone = get data ''phone'',
                                    d_email = get data ''email''\<rparr>),
                 st\<lparr>contacts := contacts st @ [c]\<rparr>)
            \<and> c_name c = get data ''name''
            \<and> c_phone c = get data ''phone''
            \<and> c_email c = get data ''email''
            \<and> c_user_id c = u_id owner
            \<and> c_id c \<notin> c_id ` set (contacts st)"
    by (intro exI [of _ ?c]) simp
qed

theorem create_validation_witness:
  "\<not> name_empty_or_absent (Some bob_payload)
   \<and> add__contact empty_db alice (Some bob_payload) =
       ((201, ContactBody \<lparr>d_id = 1, d_name = Some ''Bob'', d_phone = Some ''555-1111'',
                           d_email = None\<rparr>),
        \<lparr>users = [],
         contacts = [\<lparr>c_id = 1, c_name = Some ''Bob'', c_phone = Some ''555-1111'',
                      c_email = None, c_user_id = 1\<rparr>]\<rparr>)
   \<and> name_empty_or_absent (Some [(''phone'', Some ''555-1111'')])
   \<and> add__contact empty_db alice (Some [(''phone'', Some ''555-1111'')]) =
       ((400, ErrorBody ''Name is a required field.''), empty_db)"
  using create_validation [of empty_db alice "Some bob_payload"]
    create_validation [of empty_db alice "Some [(''phone'', Some ''555-1111'')]"]
  by (simp add: name_empty_or_absent_def bob_payload_def add__contact_def get_def
      get_default_def truthy_def to_dict_def next_id_def empty_db_def alice_def Let_def)

text \<open>
  Claim C6. If the payload has a non-empty name, then creating a contact and reading
  the identifier it answers, as the same owner, succeeds with the same dictionary: its
  name, phone and email are those of the payload, and its identifier is that of no
  contact stored before.
\<close>

theorem create_then_get:
  assumes "get data ''name'' = Some name" and "name \<noteq> []"
    and "add__contact st owner (Some data) = (r, st')"
  shows "\<exists>d. r = (201, ContactBody d)
           \<and> get_contact st' owner (d_id d) = ((200, ContactBody d), st')
           \<and> d_name d = Some name
           \<and> d_phone d = get data ''phone''
           \<and> d_email d = get data ''email''
           \<and> d_id d \<notin> c_id ` set (contacts st)"
proof -
  define c where "c = \<lparr>c_id = next_id (map c_id (contacts st)), c_name = get data ''name'',
      c_phone = get data ''phone'', c_email = get data ''email'', c_user_id = u_id owner\<rparr>"
  have ne: "data \<noteq> []"
    using assms(1) by (auto simp: get_def get_default_def)
  have r: "r = (201, ContactBody (to_dict c))" and st': "st' = st\<lparr>contacts := contacts st @ [c]\<rparr>"
    using assms ne by (simp_all add: add__contact_def truthy_def c_def Let_def)
  have fresh: "c_id c \<notin> c_id ` set (contacts st)"
    using next_id_fresh [of "map c_id (contacts st)"] by (simp add: c_def)
  then have "\<forall>x\<in>set (contacts st). \<not> (c_id x = c_id c \<and> c_user_id x = u_id owner)"
    by (metis imageI)
  then have "List.find (\<lambda>x. c_id x = c_id c \<and> c_user_id x = u_id owner) (contacts st @ [c]) = Some c"
    by (rule find_snoc_fresh) (simp add: c_def)
  then have "get_contact st' owner (c_id c) = ((200, ContactBody (to_dict c)), st')"
    by (simp add: get_contact_def st')
  with r fresh assms(1) show ?thesis
    by (simp add: to_dict_def c_def)
qed

theorem create_then_get_witness:
  "get bob_payload ''name'' = Some ''Bob''
   \<and> add__contact empty_db alice (Some bob_payload) =
       ((201, ContactBody (to_dict bob)), empty_db\<lparr>contacts := [bob]\<rparr>)
   \<and> get_contact (empty_db\<lparr>contacts := [bob]\<rparr>) alice 1 =
       ((200, ContactBody (to_dict bob)), empty_db\<lparr>contacts := [bob]\<rparr>)"
proof -
  have h1: "get bob_payload ''name'' = Some ''Bob''"
    by (simp add: get_def get_default_def bob_payload_def)
  have h2: "''Bob'' \<noteq> []"
    by simp
  have h3: "add__contact empty_db alice (Some bob_payload) =
              ((201, ContactBody (to_dict bob)), empty_db\<lparr>contacts := [bob]\<rparr>)"
    by (simp add: bob_payload_def add__contact_def get_def get_default_def truthy_def
        next_id_def empty_db_def alice_def bob_def Let_def)
  from create_then_get [OF h1 h2 h3] show ?thesis
    using h1 h3 by (auto simp: to_dict_def bob_def)
qed

section \<open>Updating a contact\<close>

text \<open>
  For an identifier that the database can bind, updating answers 404 if the owner has no
  contact with the identifier. If he has one, it answers 400 when the name field of the
  payload is empty or absent. Otherwise it answers 200 with the dictionary of the
  updated contact, which is what reading the identifier answers from then on: it has the
  identifier asked for, the name of the payload, and the phone and the email of the
  payload where the payload has them.
\<close>

lemma update_contact_route_cases:
  assumes "i \<le> max_integer"
  shows "(\<not> owns st owner i \<longrightarrow>
      update_contact_route st owner i json =
        ((404, ErrorBody ''Contact not found or access denied''), st))
   \<and> (owns st owner i \<and> name_empty_or_absent json \<longrightarrow>
      update_contact_route st owner i json =
        ((400, ErrorBody ''Name is a required field.''), st))
   \<and> (\<forall>data. owns st owner i \<and> json = Some data \<and> \<not> name_empty_or_absent json \<longrightarrow>
      (\<exists>d. fst (update_contact_route st owner i json) = (200, ContactBody d)
          \<and> get_contact_route (snd (update_contact_route st owner i json)) owner i =
              ((200, ContactBody d), snd (update_contact_route st owner i json))
          \<and> d_id d = i
          \<and> d_name d = get data ''name''
          \<and> (\<forall>v. map_of data ''phone'' = Some v \<longrightarrow> d_phone d = v)
          \<and> (\<forall>v. map_of data ''email'' = Some v \<longrightarrow> d_email d = v)))"
proof -
  have r: "update_contact_route st owner i json = update_contact st owner i json"
    "\<And>st'. get_contact_route st' owner i = get_contact st' owner i"
    using assms by (simp_all add: update_contact_route_def get_contact_route_def)
  show ?thesis
    unfolding r
  proof (intro conjI allI impI)
    assume "\<not> owns st owner i"
    then show "update_contact st owner i json =
          ((404, ErrorBody ''Contact not found or access denied''), st)"
      by (rule update_contact_not_found)
  next
    assume "owns st owner i \<and> name_empty_or_absent json"
    then show "update_contact st owner i json = ((400, ErrorBody ''Name is a required field.''), st)"
      by (simp add: update_contact_invalid)
  next
    fix data
    assume a: "owns st owner i \<and> json = Some data \<and> \<not> name_empty_or_absent json"
    then obtain c where c: "List.find (\<lambda>c. c_id c = i \<and> c_user_id c = u_id owner) (contacts st) = Some c"
      using find_owner_iff [of i owner st] by auto
    define c' where "c' = c\<lparr>c_name := get_default data ''name'' (c_name c),
                    c_phone := get_default data ''phone'' (c_phone c),
                    c_email := get_default data ''email'' (c_email c)\<rparr>"
    define st' where "st' = st\<lparr>contacts := map (\<lambda>r. if c_id r = c_id c then c' else r) (contacts st)\<rparr>"
    have valid: "\<not> name_empty_or_absent (Some data)"
      using a by auto
    have u: "update_contact st owner i json = ((200, ContactBody (to_dict c')), st')"
      using a update_contact_valid [OF c valid] by (simp add: c'_def st'_def)
    have cD: "c \<in> set (contacts st)" "c_id c = i" "c_user_id c = u_id owner"
      using find_SomeD [OF c] by simp_all
    have "List.find (\<lambda>r. c_id r = c_id c \<and> c_user_id r = u_id owner)
             (map (\<lambda>r. if c_id r = c_id c then c' else r) (contacts st)) = Some c'"
      using cD by (intro find_updated) (simp_all add: c'_def)
    then have g: "get_contact st' owner i = ((200, ContactBody (to_dict c')), st')"
      using cD(2) by (simp add: get_contact_def st'_def)
    have name: "get_default data ''name'' (c_name c) = get data ''name''"
      using valid by (auto simp: get_def get_default_def name_empty_or_absent_def split: option.splits)
    have "fst (update_contact st owner i json) = (200, ContactBody (to_dict c'))"
      using u by simp
    moreover have "get_contact (snd (update_contact st owner i json)) owner i =
                ((200, ContactBody (to_dict c')), snd (update_contact st owner i json))"
      using u g by simp
    moreover have "d_id (to_dict c') = i"
      using cD(2) by (simp add: to_dict_def c'_def)
    moreover have "d_name (to_dict c') = get data ''name''"
      using name by (simp add: to_dict_def c'_def)
    moreover have "\<forall>v. map_of data ''phone'' = Some v \<longrightarrow> d_phone (to_dict c') = v"
      by (simp add: to_dict_def c'_def get_default_def)
    moreover have "\<forall>v. map_of data ''email'' = Some v \<longrightarrow> d_email (to_dict c') = v"
      by (simp add: to_dict_def c'_def get_default_def)
    ultimately show "\<exists>d. fst (update_contact st owner i json) = (200, ContactBody d)
            \<and> get_contact (snd (update_contact st owner i json)) owner i =
                ((200, ContactBody d), snd (update_contact st owner i json))
            \<and> d_id d = i
            \<and> d_name d = get data ''name''
            \<and> (\<forall>v. map_of data ''phone'' = Some v \<longrightarrow> d_phone d = v)
            \<and> (\<forall>v. map_of data ''email'' = Some v \<longrightarrow> d_email d = v)"
      by (intro exI [of _ "to_dict c'"] conjI)
  qed
qed

text \<open>
  Claim C4. Updating should answer 404 whenever the owner has no contact with the
  identifier. The converter of the route accepts identifiers above \<open>2^63 - 1\<close>, where the
  query raises before the route can answer: \<^verbatim>\<open>PUT /api/contacts/9223372036854775808\<close>
  is answered with 500, though the owner has no such contact.
\<close>

theorem update_beyond_max_integer:
  "\<not> owns bob_db alice 9223372036854775808
   \<and> update_contact_route bob_db alice 9223372036854775808 (Some bob_payload) =
       ((500, InternalServerError), bob_db)"
  by (simp add: owns_def update_contact_route_def max_integer_def bob_db_def bob_def alice_def)

section \<open>Errors leave the database alone\<close>

text \<open>
  Claim C10. Whenever reading, updating or deleting a contact answers 404, or creating
  or updating one answers 400, the database returned is the database given.
\<close>

theorem error_atomicity:
  "(fst (fst (get_contact st owner i)) = 404 \<longrightarrow> snd (get_contact st owner i) = st)
   \<and> (fst (fst (update_contact st owner i json)) = 404 \<longrightarrow>
        snd (update_contact st owner i json) = st)
   \<and> (fst (fst (delete_contact st owner i)) = 404 \<longrightarrow> snd (delete_contact st owner i) = st)
   \<and> (fst (fst (add__contact st owner json)) = 400 \<longrightarrow> snd (add__contact st owner json) = st)
   \<and> (fst (fst (update_contact st owner i json)) = 400 \<longrightarrow>
        snd (update_contact st owner i json) = st)"
  using get_contact_db [of st owner i] update_contact_error [of st owner i json]
    delete_contact_error [of st owner i] add__contact_error [of st owner json]
  by simp

theorem error_atomicity_witness:
  "fst (fst (get_contact bob_db carol 1)) = 404
   \<and> snd (get_contact bob_db carol 1) = bob_db
   \<and> fst (fst (update_contact bob_db carol 1 None)) = 404
   \<and> snd (update_contact bob_db carol 1 None) = bob_db
   \<and> fst (fst (delete_contact bob_db carol 1)) = 404
   \<and> snd (delete_contact bob_db carol 1) = bob_db
   \<and> fst (fst (add__contact bob_db carol None)) = 400
   \<and> snd (add__contact bob_db carol None) = bob_db
   \<and> fst (fst (update_contact bob_db alice 1 None)) = 400
   \<and> snd (update_contact bob_db alice 1 None) = bob_db"
  using error_atomicity [of bob_db carol 1 None] error_atomicity [of bob_db alice 1 None]
  by (simp add: get_contact_def update_contact_def delete_contact_def add__contact_def
      bob_db_def bob_def alice_def carol_def)

section \<open>What an update keeps\<close>

text \<open>
  Claim C7. An update changes neither the identifier nor the owner of any row of the
  contact table. When it answers 200, the contact was readable before under the same
  identifier, and a phone (or email) that the payload omits has in the answer the value
  it had before.
\<close>

theorem update_frame:
  assumes "primary_key st"
  shows "map c_id (contacts (snd (update_contact st owner i json))) = map c_id (contacts st)
       \<and> map c_user_id (contacts (snd (update_contact st owner i json))) =
           map c_user_id (contacts st)
       \<and> (\<forall>data d'. json = Some data
             \<and> fst (update_contact st owner i json) = (200, ContactBody d') \<longrightarrow>
           (\<exists>d. get_contact st owner i = ((200, ContactBody d), st)
               \<and> d_id d' = d_id d
               \<and> (map_of data ''phone'' = None \<longrightarrow> d_phone d' = d_phone d)
               \<and> (map_of data ''email'' = None \<longrightarrow> d_email d' = d_email d)))"
proof (intro conjI allI impI)
  show "map c_id (contacts (snd (update_contact st owner i json))) = map c_id (contacts st)"
    by (rule update_contact_ids)
  show "map c_user_id (contacts (snd (update_contact st owner i json))) =
           map c_user_id (contacts st)"
    using assms by (rule update_contact_owners)
next
  fix data d'
  assume a: "json = Some data \<and> fst (update_contact st owner i json) = (200, ContactBody d')"
  then have ok: "fst (update_contact st owner i (Some data)) = (200, ContactBody d')"
    by auto
  then obtain c where c: "List.find (\<lambda>c. c_id c = i \<and> c_user_id c = u_id owner) (contacts st) = Some c"
    by (cases "List.find (\<lambda>c. c_id c = i \<and> c_user_id c = u_id owner) (contacts st)")
       (simp_all add: update_contact_def)
  have valid: "\<not> name_empty_or_absent (Some data)"
    using ok c truthy_name_iff [of data] by (auto simp: update_contact_def)
  have d': "d' = to_dict (c\<lparr>c_name := get_default data ''name'' (c_name c),
                  c_phone := get_default data ''phone'' (c_phone c),
                  c_email := get_default data ''email'' (c_email c)\<rparr>)"
    using ok update_contact_valid [OF c valid] by simp
  have "get_contact st owner i = ((200, ContactBody (to_dict c)), st)"
    using c by (simp add: get_contact_def)
  moreover have "d_id d' = d_id (to_dict c)"
    by (simp add: d' to_dict_def)
  moreover have "map_of data ''phone'' = None \<longrightarrow> d_phone d' = d_phone (to_dict c)"
    by (simp add: d' to_dict_def get_default_def)
  moreover have "map_of data ''email'' = None \<longrightarrow> d_email d' = d_email (to_dict c)"
    by (simp add: d' to_dict_def get_default_def)
  ultimately show "\<exists>d. get_contact st owner i = ((200, ContactBody d), st)
               \<and> d_id d' = d_id d
               \<and> (map_of data ''phone'' = None \<longrightarrow> d_phone d' = d_phone d)
               \<and> (map_of data ''email'' = None \<longrightarrow> d_email d' = d_email d)"
    by (intro exI [of _ "to_dict c"] conjI)
qed

theorem update_frame_witness:
  "primary_key bob_db
   \<and> fst (update_contact bob_db alice 1 (Some [(''name'', Some ''Bob B.'')])) =
       (200, ContactBody \<lparr>d_id = 1, d_name = Some ''Bob B.'', d_phone = Some ''555-1111'',
                          d_email = None\<rparr>)
   \<and> get_contact bob_db alice 1 = ((200, ContactBody (to_dict bob)), bob_db)
   \<and> map c_id (contacts (snd (update_contact bob_db alice 1 (Some [(''name'', Some ''Bob B.'')]))))
       = [1]
   \<and> map c_user_id
        (contacts (snd (update_contact bob_db alice 1 (Some [(''name'', Some ''Bob B.'')]))))
       = [1]"
  using update_frame [of bob_db alice 1 "Some [(''name'', Some ''Bob B.'')]"]
  by (simp add: primary_key_def update_contact_def get_contact_def get_def get_default_def
      truthy_def to_dict_def bob_db_def bob_def alice_def Let_def)


section \<open>Logging in\<close>

text \<open>
  Claim C8. A login with the name of an existing user and a password that the hash
  check rejects, and a login with a name that no user has (and any password), give the
  caller the same page, the same flashed messages and the same session: for an
  anonymous caller the login page with the one message that the username or the
  password is invalid.
\<close>

theorem login_failure_uniform:
  assumes "map_of form1 ''username'' = Some username"
    and "map_of form1 ''password'' = Some wrong_password"
    and "List.find (\<lambda>u. u_username u = username) (users st) = Some user"
    and "\<not> check_password_hash (u_password_hash user) wrong_password"
    and "map_of form2 ''username'' = Some nonexistent"
    and "map_of form2 ''password'' = Some anything"
    and "\<forall>u\<in>set (users st). u_username u \<noteq> nonexistent"
  shows "login check_password_hash st current_user (POST form1) next_page =
           login check_password_hash st current_user (POST form2) next_page
       \<and> (current_user = None \<longrightarrow>
            login check_password_hash st current_user (POST form1) next_page =
              (Render ''login.html'',
               [(''Invalid username or password. Please try again.'', ''danger'')], None))"
proof -
  have "List.find (\<lambda>u. u_username u = nonexistent) (users st) = None"
    using assms(7) by (simp add: find_None_iff)
  then show ?thesis
    using assms(1-6) by (simp add: login_def check_password_def)
qed

theorem login_failure_uniform_witness:
  "login demo_check bob_db None (POST [(''username'', ''alice''), (''password'', ''guess'')]) None
     = (Render ''login.html'',
        [(''Invalid username or password. Please try again.'', ''danger'')], None)
   \<and> login demo_check bob_db None (POST [(''username'', ''mallory''), (''password'', ''pw123'')]) None
     = (Render ''login.html'',
        [(''Invalid username or password. Please try again.'', ''danger'')], None)"
proof -
  have h3: "List.find (\<lambda>u. u_username u = ''alice'') (users bob_db) = Some alice"
    by (simp add: bob_db_def alice_def)
  have h4: "\<not> demo_check (u_password_hash alice) ''guess''"
    by (simp add: demo_check_def demo_hash_def alice_def)
  have h7: "\<forall>u\<in>set (users bob_db). u_username u \<noteq> ''mallory''"
    by (simp add: bob_db_def alice_def carol_def)
  show ?thesis
    using login_failure_uniform [of "[(''username'', ''alice''), (''password'', ''guess'')]"
        "''alice''" "''guess''" bob_db alice demo_check
        "[(''username'', ''mallory''), (''password'', ''pw123'')]" "''mallory''" "''pw123''"
        None None, OF _ _ h3 h4 _ _ h7]
    by auto
qed

section \<open>Signing up\<close>

text \<open>
  Claim C9, as the source has it. The source tests the fields for emptiness before it
  looks the username up, so an existing username with an empty password fails with the
  message that both fields are required, not with the conflict.
\<close>

theorem signup_conflict_counterexample:
  "''alice'' \<in> set (map u_username (users bob_db))
   \<and> signup ''scrypt:32768:8:1'' ''NaCl'' demo_digest bob_db None
        (POST [(''username'', ''alice''), (''password'', [])]) =
       (fst ValidationError, snd ValidationError, bob_db)
   \<and> signup ''scrypt:32768:8:1'' ''NaCl'' demo_digest bob_db None
        (POST [(''username'', ''alice''), (''password'', [])]) \<noteq>
       (fst ConflictError, snd ConflictError, bob_db)"
  by (simp add: signup_def ValidationError_def ConflictError_def bob_db_def alice_def carol_def)

text \<open>
  Claim C9, amended. For an anonymous caller: if the username or the password is empty,
  signing up fails and no user is stored. If both are non-empty and the username is
  taken, it fails with the conflict and no user is stored. If both are non-empty
  and the username is free, exactly one user is appended, with the username and a fresh
  identifier. What is stored for the password is the salted hash: the tag of the method,
  the salt drawn for this call and the digest of the password under that salt. It is
  not the password itself, unless the digest of the password were the password's own
  ending.
\<close>

theorem signup_cases:
  assumes "map_of form ''username'' = Some username"
    and "map_of form ''password'' = Some password"
  shows "(username = [] \<or> password = [] \<longrightarrow>
            signup method salt hash_internal st None (POST form) =
              (fst ValidationError, snd ValidationError, st))
       \<and> (username \<noteq> [] \<and> password \<noteq> []
            \<and> (\<exists>u\<in>set (users st). u_username u = username) \<longrightarrow>
            signup method salt hash_internal st None (POST form) =
              (fst ConflictError, snd ConflictError, st))
       \<and> (username \<noteq> [] \<and> password \<noteq> []
            \<and> (\<forall>u\<in>set (users st). u_username u \<noteq> username) \<longrightarrow>
            (\<exists>new_user. signup method salt hash_internal st None (POST form) =
                (Redirect ''/login'',
                 [(''Account created successfully! Please log in.'', ''success'')],
                 st\<lparr>users := users st @ [new_user]\<rparr>)
              \<and> u_username new_user = username
              \<and> u_id new_user \<notin> u_id ` set (users st)
              \<and> u_password_hash new_user =
                  method @ ''$'' @ salt @ ''$'' @ hash_internal salt password
              \<and> (\<not> suffix (hash_internal salt password) password \<longrightarrow>
                  u_password_hash new_user \<noteq> password)))"
proof (intro conjI impI)
  assume "username = [] \<or> password = []"
  then show "signup method salt hash_internal st None (POST form) =
              (fst ValidationError, snd ValidationError, st)"
    using assms by (auto simp: signup_def ValidationError_def)
next
  assume a: "username \<noteq> [] \<and> password \<noteq> [] \<and> (\<exists>u\<in>set (users st). u_username u = username)"
  then obtain e where "List.find (\<lambda>u. u_username u = username) (users st) = Some e"
    by (cases "List.find (\<lambda>u. u_username u = username) (users st)")
       (auto simp: find_None_iff)
  then show "signup method salt hash_internal st None (POST form) =
              (fst ConflictError, snd ConflictError, st)"
    using assms a by (simp add: signup_def ConflictError_def)
next
  assume a: "username \<noteq> [] \<and> password \<noteq> [] \<and> (\<forall>u\<in>set (users st). u_username u \<noteq> username)"
  let ?stored = "method @ ''$'' @ salt @ ''$'' @ hash_internal salt password"
  let ?new = "\<lparr>u_id = next_id (map u_id (users st)), u_username = username,
               u_password_hash = ?stored\<rparr>"
  have "List.find (\<lambda>u. u_username u = username) (users st) = None"
    using a by (simp add: find_None_iff)
  then have "signup method salt hash_internal st None (POST form) =
                (Redirect ''/login'',
                 [(''Account created successfully! Please log in.'', ''success'')],
                 st\<lparr>users := users st @ [?new]\<rparr>)"
    using assms a by (simp add: signup_def set_password_def generate_password_hash_def)
  moreover have "u_id ?new \<notin> u_id ` set (users st)"
    using next_id_fresh [of "map u_id (users st)"] by simp
  moreover have "\<not> suffix (hash_internal salt password) password \<longrightarrow> ?stored \<noteq> password"
  proof
    assume n: "\<not> suffix (hash_internal salt password) password"
    have "suffix (hash_internal salt password) ?stored"
      by (simp add: suffix_def)
    with n show "?stored \<noteq> password"
      by auto
  qed
  ultimately show "\<exists>new_user. signup method salt hash_internal st None (POST form) =
                (Redirect ''/login'',
                 [(''Account created successfully! Please log in.'', ''success'')],
                 st\<lparr>users := users st @ [new_user]\<rparr>)
              \<and> u_username new_user = username
              \<and> u_id new_user \<notin> u_id ` set (users st)
              \<and> u_password_hash new_user =
                  method @ ''$'' @ salt @ ''$'' @ hash_internal salt password
              \<and> (\<not> suffix (hash_internal salt password) password \<longrightarrow>
                  u_password_hash new_user \<noteq> password)"
    by (intro exI [of _ ?new]) simp
qed

theorem signup_cases_witness:
  "signup ''scrypt:32768:8:1'' ''NaCl'' demo_digest bob_db None
       (POST [(''username'', ''alice''), (''password'', [])]) =
     (fst ValidationError, snd ValidationError, bob_db)
   \<and> signup ''scrypt:32768:8:1'' ''NaCl'' demo_digest bob_db None
       (POST [(''username'', ''alice''), (''password'', ''pw'')]) =
     (fst ConflictError, snd ConflictError, bob_db)
   \<and> \<not> suffix (demo_digest ''NaCl'' ''pw123'') ''pw123''
   \<and> signup ''scrypt:32768:8:1'' ''NaCl'' demo_digest empty_db None
       (POST [(''username'', ''dave''), (''password'', ''pw123'')]) =
     (Redirect ''/login'', [(''Account created successfully! Please log in.'', ''success'')],
      \<lparr>users = [\<lparr>u_id = 1, u_username = ''dave'',
                  u_password_hash = ''scrypt:32768:8:1$NaCl$321wplCaN''\<rparr>],
       contacts = []\<rparr>)"
  using signup_cases [of "[(''username'', ''alice''), (''password'', [])]" "''alice''" "[]"
      "''scrypt:32768:8:1''" "''NaCl''" demo_digest bob_db]
    signup_cases [of "[(''username'', ''alice''), (''password'', ''pw'')]" "''alice''" "''pw''"
      "''scrypt:32768:8:1''" "''NaCl''" demo_digest bob_db]
    signup_cases [of "[(''username'', ''dave''), (''password'', ''pw123'')]" "''dave''"
      "''pw123''" "''scrypt:32768:8:1''" "''NaCl''" demo_digest empty_db]
  by (simp add: signup_def set_password_def generate_password_hash_def ValidationError_def
      ConflictError_def next_id_def demo_digest_def suffix_def bob_db_def empty_db_def alice_def
      carol_def)

section \<open>Searching\<close>

text \<open>
  Claim C2. Listing with a search term \<open>s\<close> should answer exactly the owner's contacts
  whose name, phone or email contains \<open>s\<close>, whatever the case, ordered by name; and
  all of them without a term. The order (\<open>get_contacts_sorted\<close>), the listing without a
  term (\<open>get_contacts_no_search\<close>) and the search for a term without \<^verbatim>\<open>%\<close> and
  \<^verbatim>\<open>_\<close> (\<open>get_contacts_literal_search\<close>) are as the claim says. But the route puts
  the term into the \<^verbatim>\<open>LIKE\<close> pattern unescaped: searching for \<^verbatim>\<open>_\<close> answers
  a contact none of whose fields contains an underscore.
\<close>

theorem search_wildcard_unescaped:
  "get_contacts bob_db alice (Some ''_'') = (200, ContactList [to_dict bob])
   \<and> \<not> matches (to_dict bob) ''_''"
  by code_simp

end
